theory Spec2Isabelle
  imports Main "HOL-Library.AList"
begin

section \<open>Python primitives used by the three scripts\<close>

text \<open>
  Text is a list of characters. Exceptions are values: a call either returns normally or
  raises, and in both cases the state it leaves behind is kept, because an exception that
  reaches the top of the script leaves the file system as it was at the raise.
\<close>

datatype error =
    KeyError | IndexError | ValueError | FileNotFoundError | CalledProcessError | ReadError

definition endswith :: "string \<Rightarrow> string \<Rightarrow> bool" where
  "endswith s suffix =
     (length suffix \<le> length s \<and> drop (length s - length suffix) s = suffix)"

text \<open>\<open>os.path.join\<close> (posixpath) for two components.\<close>

definition path_join :: "string \<Rightarrow> string \<Rightarrow> string" where
  "path_join a b =
     (if b \<noteq> [] \<and> hd b = CHR ''/'' then b
      else if a = [] \<or> last a = CHR ''/'' then a @ b
      else a @ ''/'' @ b)"

text \<open>\<open>str(n)\<close> for a non-negative integer; \<open>digit_char\<close> is only used below ten.\<close>

definition digit_char :: "nat \<Rightarrow> char" where
  "digit_char d = ''0123456789'' ! d"

function str_nat :: "nat \<Rightarrow> string" where
  "str_nat n = (if n < 10 then [digit_char n] else str_nat (n div 10) @ [digit_char (n mod 10)])"
  by pat_completeness auto
termination
  by (relation "measure id") auto

declare str_nat.simps [simp del]

text \<open>
  Reading a file in text mode: universal newlines turn \<open>\r\n\<close> and a lone \<open>\r\<close> into
  \<open>\n\<close>; \<open>readlines\<close> and iteration over the file cut after every \<open>\n\<close> and keep it.
\<close>

fun universal_newlines :: "string \<Rightarrow> string" where
  "universal_newlines [] = []"
| "universal_newlines [c] = [if c = CHR 0x0D then CHR ''\<newline>'' else c]"
| "universal_newlines (c # d # cs) =
     (if c = CHR 0x0D \<and> d = CHR ''\<newline>'' then CHR ''\<newline>'' # universal_newlines cs
      else if c = CHR 0x0D then CHR ''\<newline>'' # universal_newlines (d # cs)
      else c # universal_newlines (d # cs))"

fun cut_lines :: "string \<Rightarrow> string \<Rightarrow> string list" where
  "cut_lines cur [] = (if cur = [] then [] else [cur])"
| "cut_lines cur (c # cs) =
     (if c = CHR ''\<newline>'' then (cur @ [c]) # cut_lines [] cs else cut_lines (cur @ [c]) cs)"

definition readlines :: "string \<Rightarrow> string list" where
  "readlines content = cut_lines [] (universal_newlines content)"

text \<open>
  \<open>str.isspace\<close> on the ASCII range: tab, line feed, vertical tab, form feed, carriage
  return, the four separators \<open>0x1C\<close> to \<open>0x1F\<close>, and the space.
\<close>

definition isspace :: "char \<Rightarrow> bool" where
  "isspace c = (let n = (of_char c :: nat) in (9 \<le> n \<and> n \<le> 13) \<or> (28 \<le> n \<and> n \<le> 32))"


text \<open>\<open>str.split()\<close> without arguments: maximal runs of non-space characters.\<close>

fun split_acc :: "string \<Rightarrow> string \<Rightarrow> string list" where
  "split_acc cur [] = (if cur = [] then [] else [cur])"
| "split_acc cur (c # cs) =
     (if isspace c then (if cur = [] then split_acc [] cs else cur # split_acc [] cs)
      else split_acc (cur @ [c]) cs)"

definition split :: "string \<Rightarrow> string list" where
  "split s = split_acc [] s"

text \<open>Python slicing \<open>xs[i:j]\<close> for non-negative bounds.\<close>

definition slice :: "'a list \<Rightarrow> nat \<Rightarrow> nat \<Rightarrow> 'a list" where
  "slice xs i j = drop i (take j xs)"

section \<open>difflib: unified diffs and restore\<close>

text \<open>
  \<open>difflib.unified_diff(a, b, fromfile, tofile)\<close> formats the opcode groups that
  \<open>SequenceMatcher(None, a, b).get_grouped_opcodes(3)\<close> yields. Which lines the matcher
  pairs is a heuristic of the library; it is a parameter here (a \<open>matcher\<close>), and the
  formatting of its groups is transcribed from the library. An opcode is
  \<open>(tag, i1, i2, j1, j2)\<close>; the first and the last opcode of a group give the hunk header,
  so an empty group would raise \<open>IndexError\<close>.
\<close>

type_synonym opcode = "string \<times> nat \<times> nat \<times> nat \<times> nat"
type_synonym matcher = "string list \<Rightarrow> string list \<Rightarrow> opcode list list"

definition format_range_unified :: "nat \<Rightarrow> nat \<Rightarrow> string" where
  "format_range_unified start stop =
     (let beginning = start + 1; len = stop - start in
      if len = 1 then str_nat beginning
      else if len = 0 then str_nat (beginning - 1) @ '','' @ str_nat len
      else str_nat beginning @ '','' @ str_nat len)"

fun opcode_lines :: "string list \<Rightarrow> string list \<Rightarrow> opcode \<Rightarrow> string list" where
  "opcode_lines a b (tag, i1, i2, j1, j2) =
     (if tag = ''equal'' then map (\<lambda>line. '' '' @ line) (slice a i1 i2)
      else (if tag = ''replace'' \<or> tag = ''delete''
            then map (\<lambda>line. ''-'' @ line) (slice a i1 i2) else [])
         @ (if tag = ''replace'' \<or> tag = ''insert''
            then map (\<lambda>line. ''+'' @ line) (slice b j1 j2) else []))"

fun hunk :: "string list \<Rightarrow> string list \<Rightarrow> opcode list \<Rightarrow> error + string list" where
  "hunk a b [] = Inl IndexError"
| "hunk a b (first # rest) =
     (case (first, last (first # rest)) of
        ((_, f1, _, f3, _), (_, _, l2, _, l4)) \<Rightarrow>
          Inr ((''@@ -'' @ format_range_unified f1 l2 @ '' +'' @ format_range_unified f3 l4
                  @ '' @@\<newline>'')
               # concat (map (opcode_lines a b) (first # rest))))"

fun hunks :: "string list \<Rightarrow> string list \<Rightarrow> opcode list list \<Rightarrow> error + string list" where
  "hunks a b [] = Inr []"
| "hunks a b (g # gs) =
     (case hunk a b g of
        Inl e \<Rightarrow> Inl e
      | Inr ls \<Rightarrow> (case hunks a b gs of Inl e \<Rightarrow> Inl e | Inr rest \<Rightarrow> Inr (ls @ rest)))"

definition unified_diff ::
  "matcher \<Rightarrow> string list \<Rightarrow> string list \<Rightarrow> string \<Rightarrow> string \<Rightarrow> error + string list" where
  "unified_diff sm a b fromfile tofile =
     (if sm a b = [] then Inr []
      else case hunks a b (sm a b) of
             Inl e \<Rightarrow> Inl e
           | Inr body \<Rightarrow>
               Inr ([''--- '' @ fromfile @ ''\<newline>'', ''+++ '' @ tofile @ ''\<newline>''] @ body))"

text \<open>
  \<open>difflib.restore(delta, which)\<close>: keeps the lines of \<open>delta\<close> whose first two
  characters are two spaces or the tag of \<open>which\<close>, and drops those two characters.
\<close>

definition restore :: "string list \<Rightarrow> nat \<Rightarrow> error + string list" where
  "restore delta which =
     (if which = 1 \<or> which = 2 then
        (let tag = (if which = 1 then ''- '' else ''+ '') in
         Inr (map (drop 2) (filter (\<lambda>line. take 2 line = ''  '' \<or> take 2 line = tag) delta)))
      else Inl ValueError)"

section \<open>gbuild1.0.py: the state the build script works on\<close>

text \<open>
  The script works on the file system and on external tools. The state keeps what the
  functions below read and write:
  \<^item> \<open>etc_live stage\<close>: the files under \<open>/mnt/<stage>/etc\<close> (\<open>EtcManager.ETC_DIR\<close>), by
    path relative to that directory;
  \<^item> \<open>etc_new\<close>: the files under \<open>ETC_NEW_DIR\<close>, by relative path, listed in the order in
    which \<open>os.walk\<close> visits them (the script never writes there);
  \<^item> \<open>etc_backup\<close>: the files under \<open>ETC_BACKUP_DIR\<close>, by backup timestamp and relative
    path;
  \<^item> \<open>sandbox_exists\<close>: whether the directory \<open>SANDBOX_DIR\<close> exists;
  \<^item> \<open>log_file\<close>: the messages appended to \<open>LOG_FILE\<close>, oldest first (each line of the
    file is the message behind a time stamp);
  \<^item> \<open>trace\<close>: the external tools called so far, oldest first;
  \<^item> \<open>package_db\<close>: the content of \<open>/var/lib/pm/packages.db\<close>, the persisted package
    database that version-tracker.py reads, if the file exists.
  The three configuration trees are taken to be disjoint directories and relative paths to
  be normalised, as \<open>process_all\<close> produces them. File contents are text.
\<close>

datatype action =
    Curl string string
  | Untar string string
  | Patch string string
  | Run "string list" string

record world =
  etc_live :: "string \<Rightarrow> (string \<rightharpoonup> string)"
  etc_new :: "(string \<times> string) list"
  etc_backup :: "(string \<times> string) \<rightharpoonup> string"
  sandbox_exists :: bool
  log_file :: "string list"
  trace :: "action list"
  package_db :: "string option"

type_synonym outcome = "error option \<times> world"

text \<open>Sequencing: the next step runs only if the previous one did not raise.\<close>

definition and_then :: "outcome \<Rightarrow> (world \<Rightarrow> outcome) \<Rightarrow> outcome" where
  "and_then r f = (case r of (None, w) \<Rightarrow> f w | (Some e, w) \<Rightarrow> (Some e, w))"

definition BASE_DIR :: string where "BASE_DIR = ''/mnt''"
definition SANDBOX_DIR :: string where "SANDBOX_DIR = ''/tmp/pm-sandbox''"

text \<open>\<open>log(msg, level)\<close>: the level only selects the colour of the line printed.\<close>

definition log :: "string \<Rightarrow> world \<Rightarrow> world" where
  "log msg w = w\<lparr>log_file := log_file w @ [msg]\<rparr>"

section \<open>gbuild1.0.py: EtcManager\<close>

definition ETC_DIR :: "string \<Rightarrow> string" where
  "ETC_DIR stage_dir = path_join (path_join BASE_DIR stage_dir) ''etc''"

text \<open>
  \<open>backup_file(path)\<close> with \<open>path = os.path.join(ETC_DIR, filename)\<close>: the copy goes to
  \<open>ETC_BACKUP_ROOT/<timestamp>/<filename>\<close>, where \<open>timestamp\<close> is the clock read by the
  call, to the second. Copying a file that does not exist raises.
\<close>

definition backup_file :: "string \<Rightarrow> string \<Rightarrow> string \<Rightarrow> world \<Rightarrow> outcome" where
  "backup_file stage_dir timestamp filename w =
     (case etc_live w stage_dir filename of
        None \<Rightarrow> (Some FileNotFoundError, w)
      | Some content \<Rightarrow>
          (None, log (''Backup created: '' @ path_join (ETC_DIR stage_dir) filename)
                   (w\<lparr>etc_backup := (etc_backup w)((timestamp, filename) \<mapsto> content)\<rparr>)))"

definition merge_files :: "matcher \<Rightarrow> string \<Rightarrow> string \<Rightarrow> error + string list" where
  "merge_files sm local new = unified_diff sm (readlines local) (readlines new) ''local'' ''new''"

definition write_live :: "string \<Rightarrow> string \<Rightarrow> string \<Rightarrow> world \<Rightarrow> world" where
  "write_live stage_dir filename content w =
     w\<lparr>etc_live := (etc_live w)(stage_dir := (etc_live w stage_dir)(filename \<mapsto> content))\<rparr>"

text \<open>The rule chosen in \<open>process_file\<close> (\<open>MERGE_RULES\<close> is never consulted).\<close>

definition rule_of :: "string \<Rightarrow> string" where
  "rule_of filename =
     (if endswith filename ''.conf'' \<or> endswith filename ''.cfg'' then ''merge''
      else ''keep-local'')"

definition apply_rule ::
  "matcher \<Rightarrow> string \<Rightarrow> string \<Rightarrow> bool \<Rightarrow> string \<Rightarrow> string \<Rightarrow> world \<Rightarrow> outcome" where
  "apply_rule sm stage_dir filename auto local new w =
     (let rule = rule_of filename in
      if rule = ''keep-local'' then (None, log (''Kept local: '' @ filename) w)
      else if rule = ''replace'' then
        (None, log (''Replaced: '' @ filename) (write_live stage_dir filename new w))
      else if rule = ''merge'' then
        (case merge_files sm local new of
           Inl e \<Rightarrow> (Some e, w)
         | Inr merged_diff \<Rightarrow>
             if merged_diff \<noteq> [] \<and> auto then
               (case restore merged_diff 1 of
                  Inl e \<Rightarrow> (Some e, w)
                | Inr merged_lines \<Rightarrow>
                    (None, log (''Merged automatically: '' @ filename)
                             (write_live stage_dir filename (concat merged_lines) w)))
             else (None, w))
      else (None, w))"

definition process_file ::
  "matcher \<Rightarrow> string \<Rightarrow> string \<Rightarrow> string \<Rightarrow> bool \<Rightarrow> world \<Rightarrow> outcome" where
  "process_file sm stage_dir timestamp filename auto w =
     (case etc_live w stage_dir filename of
        None \<Rightarrow>
          (case map_of (etc_new w) filename of
             None \<Rightarrow> (Some FileNotFoundError, w)
           | Some new \<Rightarrow>
               (None, log (''Installed new config: '' @ filename)
                        (write_live stage_dir filename new w)))
      | Some local \<Rightarrow>
          (case map_of (etc_new w) filename of
             None \<Rightarrow> (Some FileNotFoundError, w)
           | Some new \<Rightarrow>
               if local = new then (None, w)
               else and_then (backup_file stage_dir timestamp filename w)
                      (apply_rule sm stage_dir filename auto local new)))"

text \<open>
  \<open>process_all\<close>: one \<open>process_file\<close> per file of the new tree, in \<open>os.walk\<close> order.
  \<open>clock filename\<close> is the time stamp the clock shows while that file is processed.
\<close>

fun process_each ::
  "matcher \<Rightarrow> string \<Rightarrow> (string \<Rightarrow> string) \<Rightarrow> bool \<Rightarrow> string list \<Rightarrow> world \<Rightarrow> outcome" where
  "process_each sm stage_dir clock auto [] w = (None, w)"
| "process_each sm stage_dir clock auto (rel_path # files) w =
     and_then (process_file sm stage_dir (clock rel_path) rel_path auto w)
       (process_each sm stage_dir clock auto files)"

definition process_all ::
  "matcher \<Rightarrow> string \<Rightarrow> (string \<Rightarrow> string) \<Rightarrow> bool \<Rightarrow> world \<Rightarrow> outcome" where
  "process_all sm stage_dir clock auto w =
     process_each sm stage_dir clock auto (map fst (etc_new w)) w"

definition update_etc :: "matcher \<Rightarrow> (string \<Rightarrow> string) \<Rightarrow> string \<Rightarrow> world \<Rightarrow> outcome" where
  "update_etc sm clock stage_dir w = process_all sm stage_dir clock True w"

section \<open>gbuild1.0.py: building packages\<close>

text \<open>
  What the script cannot decide is the environment's: whether an external tool succeeds,
  the digest of the file just downloaded, the clock, and the line matching of difflib.
  Each answer may depend on everything the tools did before (the trace). The tools are
  taken to leave the directories of the state alone.
\<close>

record environment =
  succeeds :: "action list \<Rightarrow> action \<Rightarrow> bool"
  hexdigest :: "action list \<Rightarrow> string \<Rightarrow> string"
  clock :: "action list \<Rightarrow> string \<Rightarrow> string"
  sequence_matcher :: matcher

text \<open>
  A recipe of gbuild1.0.py is a dictionary. \<open>recipe['urls']['tarball']\<close> and
  \<open>recipe['sha256']\<close> raise \<open>KeyError\<close> when absent; the other keys are read with
  \<open>get\<close> and a default, which the field holds when the key is absent.
\<close>

record recipe =
  recipe_tarball :: "string option"
  recipe_sha256 :: "string option"
  recipe_patches :: "string list"
  recipe_tipo_build :: string
  recipe_configure_opts :: "string list"
  recipe_dependencias_build :: "string list"

definition prepare_sandbox :: "world \<Rightarrow> world" where
  "prepare_sandbox w = log ''Sandbox prepared'' (w\<lparr>sandbox_exists := True\<rparr>)"

definition clean_sandbox :: "world \<Rightarrow> world" where
  "clean_sandbox w = log ''Sandbox cleaned'' (w\<lparr>sandbox_exists := False\<rparr>)"

text \<open>One call of an external tool: it is recorded, and raises if the tool fails.\<close>

definition call :: "environment \<Rightarrow> action \<Rightarrow> error \<Rightarrow> world \<Rightarrow> outcome" where
  "call env a e w =
     (if succeeds env (trace w) a then None else Some e, w\<lparr>trace := trace w @ [a]\<rparr>)"

definition download :: "environment \<Rightarrow> string \<Rightarrow> string \<Rightarrow> world \<Rightarrow> outcome" where
  "download env url dest w =
     call env (Curl url dest) CalledProcessError
       (log (''Downloading '' @ url @ '' -> '' @ dest) w)"

definition verify_sha256 ::
  "environment \<Rightarrow> string \<Rightarrow> string \<Rightarrow> world \<Rightarrow> bool \<times> world" where
  "verify_sha256 env path sha256sum w =
     (let valid = (hexdigest env (trace w) path = sha256sum) in
      (valid, log (''SHA256 '' @ (if valid then ''valid'' else ''invalid'') @ '' for '' @ path) w))"

definition extract_tarball :: "environment \<Rightarrow> string \<Rightarrow> string \<Rightarrow> world \<Rightarrow> outcome" where
  "extract_tarball env tar_path dest w =
     call env (Untar tar_path dest) ReadError
       (log (''Extracting '' @ tar_path @ '' -> '' @ dest) w)"

definition apply_patch :: "environment \<Rightarrow> string \<Rightarrow> string \<Rightarrow> world \<Rightarrow> outcome" where
  "apply_patch env patch_path work_dir w =
     call env (Patch patch_path work_dir) CalledProcessError
       (log (''Applying patch '' @ patch_path) w)"

text \<open>\<open>subprocess.run(argv, cwd=cwd, check=True)\<close>.\<close>

definition run :: "environment \<Rightarrow> string list \<Rightarrow> string \<Rightarrow> world \<Rightarrow> outcome" where
  "run env argv cwd w = call env (Run argv cwd) CalledProcessError w"

definition run_hooks :: "string \<Rightarrow> string \<Rightarrow> string \<Rightarrow> world \<Rightarrow> world" where
  "run_hooks stage hook_type package w =
     log (''Running hook '' @ hook_type @ '' for '' @ package @ '' in '' @ stage) w"

fun apply_patches :: "environment \<Rightarrow> string list \<Rightarrow> string \<Rightarrow> world \<Rightarrow> outcome" where
  "apply_patches env [] work_dir w = (None, w)"
| "apply_patches env (patch # patches) work_dir w =
     and_then (apply_patch env patch work_dir w) (apply_patches env patches work_dir)"

text \<open>The dispatch on \<open>tipo_build\<close>; an unknown build type runs nothing.\<close>

definition run_build :: "environment \<Rightarrow> string \<Rightarrow> string \<Rightarrow> recipe \<Rightarrow> world \<Rightarrow> outcome" where
  "run_build env stage work_dir recipe w =
     (let build_type = recipe_tipo_build recipe; root = BASE_DIR @ ''/'' @ stage in
      if build_type = ''autotools'' then
        and_then (run env (''./configure'' # recipe_configure_opts recipe) work_dir w) (\<lambda>w.
        and_then (run env [''make'', ''-j4''] work_dir w) (\<lambda>w.
        run env [''make'', ''install'', ''DESTDIR='' @ root] work_dir w))
      else if build_type = ''python'' then
        run env [''python3'', ''setup.py'', ''install'', ''--root='' @ root] work_dir w
      else if build_type = ''meson'' then
        (let build_dir = path_join work_dir ''build'' in
         and_then (run env [''meson'', ''..''] build_dir w) (\<lambda>w.
         and_then (run env [''ninja'', ''-C'', build_dir] build_dir w) (\<lambda>w.
         run env [''ninja'', ''-C'', build_dir, ''install''] build_dir w)))
      else if build_type = ''rust'' then
        run env [''cargo'', ''install'', ''--root'', root] work_dir w
      else (None, w))"

definition tarball_path :: "string \<Rightarrow> string" where
  "tarball_path package = path_join (path_join SANDBOX_DIR package) (package @ ''.tar.xz'')"

definition build_package :: "environment \<Rightarrow> string \<Rightarrow> string \<Rightarrow> recipe \<Rightarrow> world \<Rightarrow> outcome" where
  "build_package env stage package recipe w =
     (let w = prepare_sandbox w;
          work_dir = path_join SANDBOX_DIR package in
      case recipe_tarball recipe of
        None \<Rightarrow> (Some KeyError, w)
      | Some url \<Rightarrow>
          and_then (download env url (tarball_path package) w) (\<lambda>w.
          case recipe_sha256 recipe of
            None \<Rightarrow> (Some KeyError, w)
          | Some sha256sum \<Rightarrow>
              (case verify_sha256 env (tarball_path package) sha256sum w of
                 (valid, w) \<Rightarrow>
                   if \<not> valid then (None, log (''SHA256 mismatch for '' @ package) w)
                   else
                     and_then (extract_tarball env (tarball_path package) work_dir w) (\<lambda>w.
                     and_then (apply_patches env (recipe_patches recipe) work_dir w) (\<lambda>w.
                     and_then (run_build env stage work_dir recipe w) (\<lambda>w.
                     and_then (update_etc (sequence_matcher env) (clock env (trace w)) stage
                                 (run_hooks stage ''post_install'' package w)) (\<lambda>w.
                     (None, clean_sandbox w))))))))"

text \<open>
  \<open>build_stage(stage, recipes)\<close>: \<open>recipes\<close> is a dictionary, here the list of its items
  in iteration order.
\<close>

fun build_deps ::
  "environment \<Rightarrow> string \<Rightarrow> (string \<times> recipe) list \<Rightarrow> string list \<Rightarrow> world \<Rightarrow> outcome" where
  "build_deps env stage recipes [] w = (None, w)"
| "build_deps env stage recipes (dep # deps) w =
     (case map_of recipes dep of
        Some r \<Rightarrow> and_then (build_package env stage dep r w) (build_deps env stage recipes deps)
      | None \<Rightarrow> build_deps env stage recipes deps w)"

fun build_items ::
  "environment \<Rightarrow> string \<Rightarrow> (string \<times> recipe) list \<Rightarrow> (string \<times> recipe) list \<Rightarrow> world
     \<Rightarrow> outcome" where
  "build_items env stage recipes [] w = (None, w)"
| "build_items env stage recipes ((package, recipe) # items) w =
     and_then (build_deps env stage recipes (recipe_dependencias_build recipe) w) (\<lambda>w.
     and_then (build_package env stage package recipe w)
       (build_items env stage recipes items))"

definition build_stage ::
  "environment \<Rightarrow> string \<Rightarrow> (string \<times> recipe) list \<Rightarrow> world \<Rightarrow> outcome" where
  "build_stage env stage recipes w = build_items env stage recipes recipes w"

section \<open>gbuild.py: Gerenciador\<close>

record URLs =
  tarball :: string
  git :: "string option"

record Hooks =
  pre_download :: "string list"
  pre_build :: "string list"
  post_build :: "string list"
  post_install :: "string list"
  post_remove :: "string list"

record Testes =
  command :: string
  required :: bool

record Receita =
  nome :: string
  versao :: string
  descricao :: string
  urls :: "URLs option"
  sha256 :: string
  dependencias_build :: "string list"
  dependencias_runtime :: "string list"
  flags_use :: "string list"
  tipo_build :: string
  hooks :: Hooks
  testes :: "Testes option"
  binario_disponivel :: bool

text \<open>\<open>instalada_em\<close> is the clock reading \<open>time.time()\<close> at construction; it is only stored.\<close>

record PacoteInstalado =
  nome :: string
  versao :: string
  flags_use :: "string list"
  instalada_em :: int

record Sandbox =
  path_build :: string
  path_install :: string
  env :: "(string \<times> string) list"

record Grupo =
  nome :: string
  descricao :: string
  pacotes :: "string list"

text \<open>
  The state of a \<open>Gerenciador\<close>: \<open>banco\<close> is the dictionary \<open>BancoDados.pacotes\<close> (the
  Package Database) as the list of its items, \<open>stdout\<close> the lines printed so far.
\<close>

record Gerenciador =
  banco :: "(string \<times> PacoteInstalado) list"
  sandbox :: Sandbox
  grupos :: "(string \<times> Grupo) list"
  stdout :: "string list"

definition print :: "string \<Rightarrow> Gerenciador \<Rightarrow> Gerenciador" where
  "print line g = g\<lparr>stdout := stdout g @ [line]\<rparr>"

definition registrar_pacote :: "PacoteInstalado \<Rightarrow> Gerenciador \<Rightarrow> Gerenciador" where
  "registrar_pacote pkg g = g\<lparr>banco := AList.update (PacoteInstalado.nome pkg) pkg (banco g)\<rparr>"

fun executar_hooks :: "string list \<Rightarrow> Gerenciador \<Rightarrow> Gerenciador" where
  "executar_hooks [] g = g"
| "executar_hooks (cmd # cmds) g = executar_hooks cmds (print (''[HOOK] Executando: '' @ cmd) g)"

text \<open>
  \<open>rodar_testes\<close> prints and returns; the command is not run. Letters outside ASCII are
  written as their UTF-8 bytes.
\<close>

definition rodar_testes :: "Testes \<Rightarrow> Gerenciador \<Rightarrow> Gerenciador" where
  "rodar_testes t g =
     (let g = print (''[TESTES] Executando: '' @ command t) g in
      if required t then print (''[TESTES] Falha bloqueia instala'' @ [CHR 0xC3, CHR 0xA7, CHR 0xC3, CHR 0xA3] @ ''o'') g else g)"

definition instalar_pacote ::
  "int \<Rightarrow> Receita \<Rightarrow> bool \<Rightarrow> bool \<Rightarrow> nat \<Rightarrow> Gerenciador \<Rightarrow> Gerenciador" where
  "instalar_pacote now receita usar_binario rodar jobs g =
     (let g = print (''[INFO] Instalando pacote: '' @ Receita.nome receita) g;
          g = executar_hooks (pre_download (hooks receita)) g;
          g = (if usar_binario \<and> binario_disponivel receita then
                 print (''[INFO] Instalando bin'' @ [CHR 0xC3, CHR 0xA1] @ ''rio pr'' @ [CHR 0xC3, CHR 0xA9]
                          @ ''-compilado de '' @ Receita.nome receita) g
               else
                 (let g = print (''[INFO] Baixando e compilando '' @ Receita.nome receita) g;
                      g = print (''[INFO] Configurando build: '' @ tipo_build receita) g;
                      g = print (''[INFO] Compilando com '' @ str_nat jobs @ '' threads...'') g;
                      g = (case testes receita of
                             Some t \<Rightarrow> if rodar then rodar_testes t g else g
                           | None \<Rightarrow> g);
                      g = executar_hooks (post_build (hooks receita)) g
                  in print (''[INFO] Instalando pacote no sandbox: '' @ path_install (sandbox g)) g));
          g = executar_hooks (post_install (hooks receita)) g
      in registrar_pacote
           \<lparr>PacoteInstalado.nome = Receita.nome receita, versao = Receita.versao receita,
            flags_use = Receita.flags_use receita, instalada_em = now\<rparr> g)"

section \<open>version-tracker.py: VersionTracker\<close>

text \<open>
  A \<open>Package\<close>. The manifest reads \<open>version\<close>, \<open>url\<close> and \<open>group\<close> with \<open>info.get\<close>,
  so they may be \<open>None\<close>.
\<close>

record Package =
  name :: string
  version :: "string option"
  url :: "string option"
  use_flags :: "string list"
  update_policy :: string
  group :: "string option"

text \<open>An entry of \<open>versions\<close>: \<open>(old_ver, new_ver, policy, group)\<close>.\<close>

type_synonym update = "string option \<times> string option \<times> string \<times> string option"

record VersionTracker =
  installed_packages :: "(string \<times> Package) list"
  manifest :: "(string \<times> Package) list"
  versions :: "(string \<times> update) list"
  pm_log :: "string list"




definition vt_log :: "string \<Rightarrow> VersionTracker \<Rightarrow> VersionTracker" where
  "vt_log msg vt = vt\<lparr>pm_log := pm_log vt @ [msg]\<rparr>"

text \<open>\<open>str(x)\<close> of an optional string inside an f-string.\<close>

definition str_opt :: "string option \<Rightarrow> string" where
  "str_opt x = (case x of None \<Rightarrow> ''None'' | Some s \<Rightarrow> s)"

fun check_each ::
  "(string \<times> Package) list \<Rightarrow> (string \<times> update) list \<Rightarrow> (string \<times> Package) list
     \<Rightarrow> (string \<times> update) list" where
  "check_each mf updates [] = updates"
| "check_each mf updates ((pkg_name, pkg) # items) =
     (case map_of mf pkg_name of
        Some upstream \<Rightarrow>
          if version pkg \<noteq> version upstream then
            check_each mf
              (AList.update pkg_name
                 (version pkg, version upstream, update_policy upstream, group upstream) updates)
              items
          else check_each mf updates items
      | None \<Rightarrow> check_each mf updates items)"

definition check_updates :: "VersionTracker \<Rightarrow> (string \<times> update) list \<times> VersionTracker" where
  "check_updates vt =
     (let updates = check_each (manifest vt) [] (installed_packages vt) in
      (updates, vt\<lparr>versions := updates\<rparr>))"

text \<open>
  \<open>update_auto\<close>: the loop over \<open>self.versions.items()\<close>. The arrow of the log message is
  written as its UTF-8 bytes.
\<close>

fun update_each :: "(string \<times> update) list \<Rightarrow> VersionTracker \<Rightarrow> error option \<times> VersionTracker" where
  "update_each [] vt = (None, vt)"
| "update_each ((pkg_name, (old_ver, new_ver, policy, grp)) # items) vt =
     (if policy = ''auto'' then
        (let vt = vt_log (''Updating '' @ pkg_name @ '': '' @ str_opt old_ver @ '' ''
                           @ [CHR 0xE2, CHR 0x86, CHR 0x92] @ '' '' @ str_opt new_ver
                           @ '' (group '' @ str_opt grp @ '')'') vt in
         case map_of (installed_packages vt) pkg_name of
           None \<Rightarrow> (Some KeyError, vt)
         | Some pkg \<Rightarrow>
             update_each items
               (vt_log (pkg_name @ '' updated successfully'')
                  (vt\<lparr>installed_packages :=
                        AList.update pkg_name (pkg\<lparr>version := new_ver\<rparr>) (installed_packages vt)\<rparr>)))
      else update_each items vt)"

definition update_auto :: "VersionTracker \<Rightarrow> error option \<times> VersionTracker" where
  "update_auto vt = update_each (versions vt) vt"

section \<open>Example inputs\<close>

definition empty_world :: world where
  "empty_world =
     \<lparr>etc_live = (\<lambda>stage_dir. Map.empty), etc_new = [], etc_backup = Map.empty,
      sandbox_exists = False, log_file = [], trace = [], package_db = None\<rparr>"

text \<open>A stage whose live \<open>app.conf\<close> was edited locally, and a new default for it.\<close>

definition conf_world :: world where
  "conf_world =
     empty_world
       \<lparr>etc_live := (\<lambda>stage_dir. if stage_dir = ''stage3''
                       then [''app.conf'' \<mapsto> ''port=1\<newline>''] else Map.empty),
        etc_new := [(''app.conf'', ''port=2\<newline>'')]\<rparr>"

text \<open>What difflib's matcher yields for two one-line files that differ.\<close>

definition one_line_matcher :: matcher where
  "one_line_matcher a b = [[(''replace'', 0, 1, 0, 1)]]"

text \<open>A stage whose live \<open>hosts\<close> differs from the new one.\<close>

definition hosts_world :: world where
  "hosts_world =
     empty_world
       \<lparr>etc_live := (\<lambda>stage_dir. if stage_dir = ''stage3''
                       then [''hosts'' \<mapsto> ''127.0.0.1 box\<newline>''] else Map.empty),
        etc_new := [(''hosts'', ''127.0.0.1 localhost\<newline>'')]\<rparr>"

text \<open>Two passes of \<open>process_all\<close>, five minutes apart.\<close>

definition first_clock :: "string \<Rightarrow> string" where
  "first_clock filename = ''20260101_120000''"

definition second_clock :: "string \<Rightarrow> string" where
  "second_clock filename = ''20260101_120500''"


text \<open>Scenario E: \<open>pkg\<close> installed at 1.0, the manifest has 2.0 with policy \<open>auto\<close>.\<close>

definition scenario_E :: VersionTracker where
  "scenario_E =
     \<lparr>installed_packages =
        [(''pkg'', \<lparr>name = ''pkg'', version = Some ''1.0'', url = Some [], use_flags = [],
                    update_policy = ''notify'', group = None\<rparr>)],
      manifest =
        [(''pkg'', \<lparr>name = ''pkg'', version = Some ''2.0'', url = None, use_flags = [],
                    update_policy = ''auto'', group = Some ''core''\<rparr>)],
      versions = [],
      pm_log = []\<rparr>"

text \<open>The destinations of the downloads in a trace, oldest first: one per build started.\<close>

fun download_dests :: "action list \<Rightarrow> string list" where
  "download_dests [] = []"
| "download_dests (Curl source dest # as) = dest # download_dests as"
| "download_dests (a # as) = download_dests as"

text \<open>
  The order of builds in a stage, in words: for each item of \<open>recipes\<close> in turn, those of
  its declared build-time dependencies that are keys of \<open>recipes\<close>, in declared order, and
  then the package itself.
\<close>

definition stage_order :: "(string \<times> recipe) list \<Rightarrow> string list" where
  "stage_order recipes =
     concat (map (\<lambda>(package, recipe).
                    filter (\<lambda>dep. map_of recipes dep \<noteq> None) (recipe_dependencias_build recipe)
                    @ [package]) recipes)"

text \<open>The example recipe of the script.\<close>

definition GCC_RECIPE :: recipe where
  "GCC_RECIPE =
     \<lparr>recipe_tarball = Some ''https://ftp.gnu.org/gnu/gcc/gcc-12.2.0/gcc-12.2.0.tar.xz'',
      recipe_sha256 = Some ''d08a6c1a8c23ee8b3e1c1b8d7d5ebf5f9f7715c7b6f4b5646f6b3f6f6b5f6c5f'',
      recipe_patches = [],
      recipe_tipo_build = ''autotools'',
      recipe_configure_opts = [''--disable-multilib''],
      recipe_dependencias_build = [''mpfr'', ''gmp'', ''mpc'']\<rparr>"

text \<open>
  Three environments: one where every tool works and the download has another digest than
  the recipe declares, one where the digest is right and the build tools fail, and one where
  everything works for recipes that declare the digest \<open>abc\<close>.
\<close>

definition corrupt_env :: environment where
  "corrupt_env =
     \<lparr>succeeds = (\<lambda>history a. True),
      hexdigest = (\<lambda>history path. ''0000000000000000000000000000000000000000000000000000000000000000''),
      clock = (\<lambda>history filename. ''20260101_120000''),
      sequence_matcher = one_line_matcher\<rparr>"

definition broken_tools_env :: environment where
  "broken_tools_env =
     \<lparr>succeeds = (\<lambda>history a. case a of Run argv cwd \<Rightarrow> False | _ \<Rightarrow> True),
      hexdigest = (\<lambda>history path. ''d08a6c1a8c23ee8b3e1c1b8d7d5ebf5f9f7715c7b6f4b5646f6b3f6f6b5f6c5f''),
      clock = (\<lambda>history filename. ''20260101_120000''),
      sequence_matcher = one_line_matcher\<rparr>"

definition good_env :: environment where
  "good_env =
     \<lparr>succeeds = (\<lambda>history a. True),
      hexdigest = (\<lambda>history path. ''abc''),
      clock = (\<lambda>history filename. ''20260101_120000''),
      sequence_matcher = one_line_matcher\<rparr>"

text \<open>A stage of two packages: \<open>app\<close> needs \<open>lib\<close> to build.\<close>

definition app_lib_recipes :: "(string \<times> recipe) list" where
  "app_lib_recipes =
     [(''app'', \<lparr>recipe_tarball = Some ''http://src/app.tar.xz'', recipe_sha256 = Some ''abc'',
                 recipe_patches = [], recipe_tipo_build = ''python'', recipe_configure_opts = [],
                 recipe_dependencias_build = [''lib'']\<rparr>),
      (''lib'', \<lparr>recipe_tarball = Some ''http://src/lib.tar.xz'', recipe_sha256 = Some ''abc'',
                 recipe_patches = [], recipe_tipo_build = ''rust'', recipe_configure_opts = [],
                 recipe_dependencias_build = []\<rparr>)]"

section \<open>Properties of the configuration reconciler\<close>

lemma rule_of_cases: "rule_of f = ''merge'' \<or> rule_of f = ''keep-local''"
  by (simp add: rule_of_def)

lemma log_simps [simp]:
  "log_file (log m w) = log_file w @ [m]"
  "etc_live (log m w) = etc_live w"
  "etc_new (log m w) = etc_new w"
  "etc_backup (log m w) = etc_backup w"
  "sandbox_exists (log m w) = sandbox_exists w"
  "trace (log m w) = trace w"
  "package_db (log m w) = package_db w"
  by (simp_all add: log_def)

lemma write_live_simps [simp]:
  "log_file (write_live s f c w) = log_file w"
  "etc_new (write_live s f c w) = etc_new w"
  "etc_backup (write_live s f c w) = etc_backup w"
  "sandbox_exists (write_live s f c w) = sandbox_exists w"
  "trace (write_live s f c w) = trace w"
  "package_db (write_live s f c w) = package_db w"
  "etc_live (write_live s f c w) = (etc_live w)(s := (etc_live w s)(f \<mapsto> c))"
  by (simp_all add: write_live_def)

lemma apply_rule_log:
  "\<exists>msgs. log_file (snd (apply_rule sm s f auto l n w)) = log_file w @ msgs
     \<and> (''Replaced: '' @ f) \<notin> set msgs"
  using rule_of_cases [of f]
  by (auto simp: apply_rule_def Let_def split: sum.splits)

lemma apply_rule_keeps [simp]:
  "etc_backup (snd (apply_rule sm s f auto l n w)) = etc_backup w"
  "etc_new (snd (apply_rule sm s f auto l n w)) = etc_new w"
  "sandbox_exists (snd (apply_rule sm s f auto l n w)) = sandbox_exists w"
  "trace (snd (apply_rule sm s f auto l n w)) = trace w"
  "package_db (snd (apply_rule sm s f auto l n w)) = package_db w"
  by (simp_all add: apply_rule_def Let_def split: sum.splits)

lemma apply_rule_keep_local:
  "rule_of f = ''keep-local'' \<Longrightarrow>
     apply_rule sm s f auto l n w = (None, log (''Kept local: '' @ f) w)"
  by (simp add: apply_rule_def)

lemma process_file_differs:
  assumes "etc_live w s f = Some l" and "map_of (etc_new w) f = Some n" and "l \<noteq> n"
  shows "process_file sm s ts f auto w =
           apply_rule sm s f auto l n
             (log (''Backup created: '' @ path_join (ETC_DIR s) f)
                (w\<lparr>etc_backup := (etc_backup w)((ts, f) \<mapsto> l)\<rparr>))"
  using assms by (simp add: process_file_def backup_file_def and_then_def)

lemma process_file_same:
  assumes "etc_live w s f = Some l" and "map_of (etc_new w) f = Some l"
  shows "process_file sm s ts f auto w = (None, w)"
  using assms by (simp add: process_file_def)

lemma process_file_absent:
  assumes "etc_live w s f = None" and "map_of (etc_new w) f = Some n"
  shows "process_file sm s ts f auto w =
           (None, log (''Installed new config: '' @ f) (write_live s f n w))"
  using assms by (simp add: process_file_def)

lemma process_file_log:
  "\<exists>msgs. log_file (snd (process_file sm s ts f auto w)) = log_file w @ msgs
     \<and> (''Replaced: '' @ f) \<notin> set msgs"
proof (cases "etc_live w s f")
  case None
  then show ?thesis by (auto simp: process_file_def split: option.splits)
next
  case (Some l)
  note l = this
  show ?thesis
  proof (cases "map_of (etc_new w) f")
    case None
    with l show ?thesis by (simp add: process_file_def)
  next
    case (Some n)
    note n = this
    show ?thesis
    proof (cases "l = n")
      case True
      with n l show ?thesis by (simp add: process_file_def)
    next
      case False
      let ?w1 = "log (''Backup created: '' @ path_join (ETC_DIR s) f)
                   (w\<lparr>etc_backup := (etc_backup w)((ts, f) \<mapsto> l)\<rparr>)"
      obtain msgs where m:
        "log_file (snd (apply_rule sm s f auto l n ?w1)) = log_file ?w1 @ msgs"
        "(''Replaced: '' @ f) \<notin> set msgs"
        using apply_rule_log by blast
      show ?thesis
        apply (rule exI [of _ "(''Backup created: '' @ path_join (ETC_DIR s) f) # msgs"])
        using m by (simp add: process_file_differs [OF l n False])
    qed
  qed
qed

text \<open>
  C9. The rule \<open>process_file\<close> selects for a file name is \<open>merge\<close> exactly when the name
  ends in \<open>.conf\<close> or \<open>.cfg\<close>, and \<open>keep-local\<close> otherwise; it is never \<open>replace\<close>, and
  \<open>process_file\<close> never writes the log line of the replace branch, whatever the state and
  the arguments.
\<close>

theorem C9_replace_branch_never_taken:
  "(rule_of filename = ''merge'' \<or> rule_of filename = ''keep-local'')
   \<and> (rule_of filename = ''merge'')
       = (endswith filename ''.conf'' \<or> endswith filename ''.cfg'')
   \<and> rule_of filename \<noteq> ''replace''
   \<and> (\<exists>msgs. log_file (snd (process_file sm stage_dir timestamp filename auto w))
                 = log_file w @ msgs
             \<and> (''Replaced: '' @ filename) \<notin> set msgs)"
  using process_file_log [of sm stage_dir timestamp filename auto w]
  by (simp add: rule_of_def)

text \<open>
  C7. When the live file exists and differs from its new counterpart, \<open>process_file\<close> first
  takes a backup of the live content as it was (under the time stamp of the call), and only
  then applies the rule to the state the backup left: the backup is still there afterwards,
  and its log line comes before anything the rule logs. This holds for every file name, so
  for every rule. Under \<open>keep-local\<close> the call returns normally and the live tree is
  unchanged.
\<close>

theorem C7_backup_before_rule:
  assumes "etc_live w stage_dir filename = Some local"
    and "map_of (etc_new w) filename = Some new"
    and "local \<noteq> new"
  shows "\<exists>w1 msgs.
           backup_file stage_dir timestamp filename w = (None, w1)
         \<and> etc_backup w1 (timestamp, filename) = Some local
         \<and> etc_live w1 = etc_live w
         \<and> process_file sm stage_dir timestamp filename auto w
             = apply_rule sm stage_dir filename auto local new w1
         \<and> etc_backup (snd (process_file sm stage_dir timestamp filename auto w))
             (timestamp, filename) = Some local
         \<and> log_file (snd (process_file sm stage_dir timestamp filename auto w))
             = log_file w @ (''Backup created: '' @ path_join (ETC_DIR stage_dir) filename) # msgs
         \<and> (rule_of filename = ''keep-local'' \<longrightarrow>
              fst (process_file sm stage_dir timestamp filename auto w) = None
              \<and> etc_live (snd (process_file sm stage_dir timestamp filename auto w)) = etc_live w)"
proof -
  let ?w1 = "log (''Backup created: '' @ path_join (ETC_DIR stage_dir) filename)
               (w\<lparr>etc_backup := (etc_backup w)((timestamp, filename) \<mapsto> local)\<rparr>)"
  have b: "backup_file stage_dir timestamp filename w = (None, ?w1)"
    using assms(1) by (simp add: backup_file_def)
  have pf: "process_file sm stage_dir timestamp filename auto w
              = apply_rule sm stage_dir filename auto local new ?w1"
    by (rule process_file_differs [OF assms])
  obtain msgs where m:
    "log_file (snd (apply_rule sm stage_dir filename auto local new ?w1)) = log_file ?w1 @ msgs"
    using apply_rule_log by blast
  have keep: "rule_of filename = ''keep-local'' \<longrightarrow>
      fst (apply_rule sm stage_dir filename auto local new ?w1) = None
      \<and> etc_live (snd (apply_rule sm stage_dir filename auto local new ?w1)) = etc_live w"
    by (simp add: apply_rule_keep_local)
  show ?thesis
    apply (rule exI [of _ ?w1])
    apply (rule exI [of _ msgs])
    using b m keep by (simp add: pf)
qed

theorem C7_backup_before_rule_witness:
  "etc_backup (snd (process_file one_line_matcher ''stage3'' ''20260101_120000'' ''hosts'' True hosts_world))
     (''20260101_120000'', ''hosts'') = Some ''127.0.0.1 box\<newline>''
   \<and> etc_live (snd (process_file one_line_matcher ''stage3'' ''20260101_120000'' ''hosts'' True hosts_world))
       = etc_live hosts_world"
proof -
  have 1: "etc_live hosts_world ''stage3'' ''hosts'' = Some ''127.0.0.1 box\<newline>''"
    by (simp add: hosts_world_def empty_world_def)
  have 2: "map_of (etc_new hosts_world) ''hosts'' = Some ''127.0.0.1 localhost\<newline>''"
    by (simp add: hosts_world_def empty_world_def)
  have 3: "''127.0.0.1 box\<newline>'' \<noteq> ''127.0.0.1 localhost\<newline>''" by simp
  have 4: "rule_of ''hosts'' = ''keep-local''" by (simp add: rule_of_def endswith_def)
  show ?thesis
    using C7_backup_before_rule [OF 1 2 3, of "''20260101_120000''" one_line_matcher True] 4 by auto
qed

text \<open>
  Replaying a unified diff with \<open>difflib.restore\<close>: the header lines start with
  \<open>--\<close>, \<open>++\<close> and \<open>@@\<close>, and a body line is one marker character followed by the
  line itself, so \<open>restore\<close> keeps a body line only when the line it carries begins with a
  space. When no line of the live file begins with a space, nothing is kept, and an
  automatic merge rewrites the live file empty.
\<close>

lemma set_slice: "set (slice xs i j) \<subseteq> set xs"
  unfolding slice_def by (meson set_drop_subset set_take_subset subset_trans)

lemma replay_skips_context:
  "take 1 l \<noteq> '' '' \<Longrightarrow>
     \<not> (take 2 ('' '' @ l) = ''  '' \<or> take 2 ('' '' @ l) = ''- '')"
  by simp

lemma replay_skips_removed:
  "take 1 l \<noteq> '' '' \<Longrightarrow>
     \<not> (take 2 (''-'' @ l) = ''  '' \<or> take 2 (''-'' @ l) = ''- '')"
  by simp

lemma replay_skips_added:
  "\<not> (take 2 (''+'' @ l) = ''  '' \<or> take 2 (''+'' @ l) = ''- '')"
  by simp

lemma ball_subset: "\<forall>x\<in>B. P x \<Longrightarrow> A \<subseteq> B \<Longrightarrow> \<forall>x\<in>A. P x"
  by blast

lemma filter_map_none: "(\<And>x. x \<in> set xs \<Longrightarrow> \<not> P (f x)) \<Longrightarrow> filter P (map f xs) = []"
  by (induction xs) simp_all

lemma filter_branches:
  assumes "filter P E = []" and "filter P R = []" and "filter P A = []"
  shows "filter P (if c0 then E else (if c1 then R else []) @ (if c2 then A else [])) = []"
  using assms by simp

lemma replay_opcode_lines:
  assumes "\<forall>l\<in>set a. take 1 l \<noteq> '' ''"
  shows "filter (\<lambda>line. take 2 line = ''  '' \<or> take 2 line = ''- '') (opcode_lines a b opc) = []"
proof -
  obtain tag i1 i2 j1 j2 where opc: "opc = (tag, i1, i2, j1, j2)"
    by (cases opc)
  have a: "\<forall>l\<in>set (slice a i1 i2). take 1 l \<noteq> '' ''"
    by (rule ball_subset [OF assms set_slice])
  have 1: "filter (\<lambda>line. take 2 line = ''  '' \<or> take 2 line = ''- '')
             (map (\<lambda>line. '' '' @ line) (slice a i1 i2)) = []"
    by (rule filter_map_none, rule replay_skips_context, rule bspec [OF a])
  have 2: "filter (\<lambda>line. take 2 line = ''  '' \<or> take 2 line = ''- '')
             (map (\<lambda>line. ''-'' @ line) (slice a i1 i2)) = []"
    by (rule filter_map_none, rule replay_skips_removed, rule bspec [OF a])
  have 3: "filter (\<lambda>line. take 2 line = ''  '' \<or> take 2 line = ''- '')
             (map (\<lambda>line. ''+'' @ line) (slice b j1 j2)) = []"
    by (rule filter_map_none, rule replay_skips_added)
  show ?thesis
    unfolding opc opcode_lines.simps by (rule filter_branches [OF 1 2 3])
qed

lemma replay_hunk:
  assumes "\<forall>l\<in>set a. take 1 l \<noteq> '' ''" and "hunk a b g = Inr ls"
  shows "filter (\<lambda>line. take 2 line = ''  '' \<or> take 2 line = ''- '') ls = []"
proof (cases g)
  case Nil
  then show ?thesis using assms(2) by simp
next
  case (Cons first rest)
  have "filter (\<lambda>line. take 2 line = ''  '' \<or> take 2 line = ''- '')
          (concat (map (opcode_lines a b) (first # rest))) = []"
    using replay_opcode_lines [OF assms(1)]
    by (simp only: filter_concat map_map o_def concat_eq_Nil_conv) simp
  then show ?thesis
    using assms(2) Cons by (auto split: prod.splits)
qed

lemma replay_hunks:
  assumes "\<forall>l\<in>set a. take 1 l \<noteq> '' ''" and "hunks a b gs = Inr ls"
  shows "filter (\<lambda>line. take 2 line = ''  '' \<or> take 2 line = ''- '') ls = []"
  using assms(2)
proof (induction gs arbitrary: ls)
  case Nil
  then show ?case by simp
next
  case (Cons g gs)
  then show ?case
    using replay_hunk [OF assms(1)]
    by (auto split: sum.splits)
qed

lemma merge_replay_is_empty:
  assumes "\<forall>l\<in>set (readlines local). take 1 l \<noteq> '' ''"
    and "merge_files sm local new = Inr merged_diff"
  shows "restore merged_diff 1 = Inr []"
proof (cases "sm (readlines local) (readlines new) = []")
  case True
  then show ?thesis
    using assms(2) by (auto simp: merge_files_def unified_diff_def restore_def)
next
  case False
  then obtain body where b: "hunks (readlines local) (readlines new)
                               (sm (readlines local) (readlines new)) = Inr body"
    and d: "merged_diff = [''--- local\<newline>'', ''+++ new\<newline>''] @ body"
    using assms(2) by (auto simp: merge_files_def unified_diff_def split: sum.splits)
  show ?thesis
    using replay_hunks [OF assms(1) b] by (simp add: d restore_def)
qed


lemma merge_rewrites_empty:
  assumes "etc_live w s f = Some local" and "map_of (etc_new w) f = Some new"
    and "local \<noteq> new" and "rule_of f = ''merge''"
    and "\<forall>l\<in>set (readlines local). take 1 l \<noteq> '' ''"
    and "merge_files sm local new = Inr merged_diff" and "merged_diff \<noteq> []"
  shows "fst (process_file sm s ts f True w) = None
         \<and> etc_live (snd (process_file sm s ts f True w)) s f = Some []"
  using merge_replay_is_empty [OF assms(5) assms(6)] assms(4) assms(6) assms(7)
  by (simp add: process_file_differs [OF assms(1) assms(2) assms(3)] apply_rule_def)

text \<open>
  C1. The merge branch at a concrete input: \<open>app.conf\<close> with one local line and one
  different new line, automatic merging on. The unified diff is replayed with
  \<open>difflib.restore\<close>, which reads the two-character prefixes of an ndiff delta; no
  line of this unified diff has such a prefix, so the live file is rewritten empty: neither
  the new setting nor the local one is left in it. The backup of the old content exists.
\<close>

theorem C1_merge_loses_new_content:
  "fst (process_file one_line_matcher ''stage3'' ''20260101_120000'' ''app.conf'' True conf_world)
     = None
   \<and> etc_live (snd (process_file one_line_matcher ''stage3'' ''20260101_120000'' ''app.conf''
                      True conf_world)) ''stage3'' ''app.conf'' = Some []
   \<and> etc_backup (snd (process_file one_line_matcher ''stage3'' ''20260101_120000'' ''app.conf''
                        True conf_world)) (''20260101_120000'', ''app.conf'')
       = Some ''port=1\<newline>''"
  by code_simp

lemma process_file_step:
  assumes c: "map_of (etc_new w) f = Some c"
    and k: "etc_live w s f = None \<or> etc_live w s f = Some c \<or> rule_of f = ''keep-local''"
  shows "\<exists>w1. process_file sm s ts f auto w = (None, w1)
           \<and> etc_new w1 = etc_new w
           \<and> etc_live w1 = (etc_live w)(s := (etc_live w s)
                 (f := (case etc_live w s f of None \<Rightarrow> Some c | Some l \<Rightarrow> Some l)))
           \<and> etc_backup w1 = (case etc_live w s f of
                                None \<Rightarrow> etc_backup w
                              | Some l \<Rightarrow> if l = c then etc_backup w
                                          else (etc_backup w)((ts, f) \<mapsto> l))"
proof (cases "etc_live w s f")
  case None
  then show ?thesis using c by (simp add: process_file_absent)
next
  case (Some l)
  show ?thesis
  proof (cases "l = c")
    case True
    with Some c show ?thesis by (simp add: process_file_same fun_upd_idem)
  next
    case False
    have "rule_of f = ''keep-local''" using k Some False by simp
    then show ?thesis
      using Some c False
      by (simp add: process_file_differs apply_rule_keep_local fun_upd_idem)
  qed
qed

lemma process_each_no_merge:
  assumes "\<forall>f\<in>set fs. map_of (etc_new w) f \<noteq> None"
    and "\<forall>f\<in>set fs. etc_live w s f = None \<or> etc_live w s f = map_of (etc_new w) f
            \<or> rule_of f = ''keep-local''"
  shows "\<exists>w'. process_each sm s clk auto fs w = (None, w')
           \<and> etc_new w' = etc_new w
           \<and> (\<forall>s' f. etc_live w' s' f =
                 (if s' = s \<and> f \<in> set fs \<and> etc_live w s f = None then map_of (etc_new w) f
                  else etc_live w s' f))
           \<and> (\<forall>t f. etc_backup w' (t, f) =
                 (if f \<in> set fs \<and> t = clk f \<and> etc_live w s f \<noteq> None
                     \<and> etc_live w s f \<noteq> map_of (etc_new w) f
                  then etc_live w s f else etc_backup w (t, f)))"
  using assms
proof (induction fs arbitrary: w)
  case Nil
  then show ?case by simp
next
  case (Cons g fs)
  obtain c where c: "map_of (etc_new w) g = Some c"
    using Cons.prems(1) by auto
  have k: "etc_live w s g = None \<or> etc_live w s g = Some c \<or> rule_of g = ''keep-local''"
    using Cons.prems(2) c by auto
  obtain w1 where w1: "process_file sm s (clk g) g auto w = (None, w1)"
    and n1: "etc_new w1 = etc_new w"
    and l1: "etc_live w1 = (etc_live w)(s := (etc_live w s)
                 (g := (case etc_live w s g of None \<Rightarrow> Some c | Some l \<Rightarrow> Some l)))"
    and b1: "etc_backup w1 = (case etc_live w s g of
                                None \<Rightarrow> etc_backup w
                              | Some l \<Rightarrow> if l = c then etc_backup w
                                          else (etc_backup w)((clk g, g) \<mapsto> l))"
    using process_file_step [OF c k, of sm "clk g" auto] by blast
  have p1: "\<forall>f\<in>set fs. map_of (etc_new w1) f \<noteq> None"
    using Cons.prems(1) n1 by simp
  have p2: "\<forall>f\<in>set fs. etc_live w1 s f = None \<or> etc_live w1 s f = map_of (etc_new w1) f
            \<or> rule_of f = ''keep-local''"
    using Cons.prems(2) n1 l1 c by (auto split: option.splits if_splits)
  obtain w' where w': "process_each sm s clk auto fs w1 = (None, w')"
    and n': "etc_new w' = etc_new w1"
    and l': "\<forall>s' f. etc_live w' s' f =
                 (if s' = s \<and> f \<in> set fs \<and> etc_live w1 s f = None then map_of (etc_new w1) f
                  else etc_live w1 s' f)"
    and b': "\<forall>t f. etc_backup w' (t, f) =
                 (if f \<in> set fs \<and> t = clk f \<and> etc_live w1 s f \<noteq> None
                     \<and> etc_live w1 s f \<noteq> map_of (etc_new w1) f
                  then etc_live w1 s f else etc_backup w1 (t, f))"
    using Cons.IH [OF p1 p2] by blast
  have run: "process_each sm s clk auto (g # fs) w = (None, w')"
    using w1 w' by (simp add: and_then_def)
  have live: "\<forall>s' f. etc_live w' s' f =
                 (if s' = s \<and> f \<in> set (g # fs) \<and> etc_live w s f = None then map_of (etc_new w) f
                  else etc_live w s' f)"
    using l' l1 n1 c by (auto split: option.splits)
  have backup: "\<forall>t f. etc_backup w' (t, f) =
                 (if f \<in> set (g # fs) \<and> t = clk f \<and> etc_live w s f \<noteq> None
                     \<and> etc_live w s f \<noteq> map_of (etc_new w) f
                  then etc_live w s f else etc_backup w (t, f))"
    using b' b1 l1 n1 c by (auto split: option.splits)
  show ?case using run n' n1 live backup by simp
qed

lemma map_of_keys: "f \<in> set (map fst xs) \<Longrightarrow> map_of xs f \<noteq> None"
  by (induction xs) auto

text \<open>
  C8, as the code has it. Take a new tree in which every file is absent from the live tree,
  identical to its live counterpart, or falls under \<open>keep-local\<close>. Two passes of
  \<open>process_all\<close> in a row both return normally, and the second pass leaves the live tree
  as the first one left it. The second pass takes no backup of a file that was absent or
  identical before the first pass; of every file that differed (and still differs, being
  kept local) it takes a backup again, under the time stamp of the second pass.
\<close>

theorem C8_second_pass:
  assumes "\<forall>f\<in>set (map fst (etc_new w)).
             etc_live w stage_dir f = None \<or> etc_live w stage_dir f = map_of (etc_new w) f
             \<or> rule_of f = ''keep-local''"
  shows "\<exists>w1 w2.
           process_all sm stage_dir clock1 auto w = (None, w1)
         \<and> process_all sm stage_dir clock2 auto w1 = (None, w2)
         \<and> etc_live w2 = etc_live w1
         \<and> (\<forall>t f. etc_backup w2 (t, f) =
               (if f \<in> set (map fst (etc_new w)) \<and> t = clock2 f
                   \<and> etc_live w stage_dir f \<noteq> None
                   \<and> etc_live w stage_dir f \<noteq> map_of (etc_new w) f
                then etc_live w stage_dir f else etc_backup w1 (t, f)))"
proof -
  let ?fs = "map fst (etc_new w)"
  have keys: "\<forall>f\<in>set ?fs. map_of (etc_new w) f \<noteq> None"
    using map_of_keys by fast
  obtain w1 where r1: "process_each sm stage_dir clock1 auto ?fs w = (None, w1)"
    and n1: "etc_new w1 = etc_new w"
    and l1: "\<forall>s' f. etc_live w1 s' f =
                 (if s' = stage_dir \<and> f \<in> set ?fs \<and> etc_live w stage_dir f = None
                  then map_of (etc_new w) f else etc_live w s' f)"
    using process_each_no_merge [OF keys assms, of sm clock1 auto] by blast
  have keys1: "\<forall>f\<in>set ?fs. map_of (etc_new w1) f \<noteq> None"
    using keys n1 by simp
  have hyp1: "\<forall>f\<in>set ?fs.
             etc_live w1 stage_dir f = None \<or> etc_live w1 stage_dir f = map_of (etc_new w1) f
             \<or> rule_of f = ''keep-local''"
    using assms l1 n1 by auto
  obtain w2 where r2: "process_each sm stage_dir clock2 auto ?fs w1 = (None, w2)"
    and l2: "\<forall>s' f. etc_live w2 s' f =
                 (if s' = stage_dir \<and> f \<in> set ?fs \<and> etc_live w1 stage_dir f = None
                  then map_of (etc_new w1) f else etc_live w1 s' f)"
    and b2: "\<forall>t f. etc_backup w2 (t, f) =
                 (if f \<in> set ?fs \<and> t = clock2 f \<and> etc_live w1 stage_dir f \<noteq> None
                     \<and> etc_live w1 stage_dir f \<noteq> map_of (etc_new w1) f
                  then etc_live w1 stage_dir f else etc_backup w1 (t, f))"
    using process_each_no_merge [OF keys1 hyp1, of sm clock2 auto] by blast
  have present: "\<forall>f\<in>set ?fs. etc_live w1 stage_dir f \<noteq> None"
    using l1 keys by auto
  have live: "etc_live w2 = etc_live w1"
  proof (intro ext)
    fix s' f
    show "etc_live w2 s' f = etc_live w1 s' f"
      using l2 present by auto
  qed
  have backup: "\<forall>t f. etc_backup w2 (t, f) =
               (if f \<in> set ?fs \<and> t = clock2 f
                   \<and> etc_live w stage_dir f \<noteq> None
                   \<and> etc_live w stage_dir f \<noteq> map_of (etc_new w) f
                then etc_live w stage_dir f else etc_backup w1 (t, f))"
    using b2 l1 n1 keys by auto
  show ?thesis
    using r1 r2 live backup n1 by (auto simp: process_all_def)
qed

theorem C8_second_pass_witness:
  "etc_live (snd (process_all one_line_matcher ''stage3'' second_clock True
                 (snd (process_all one_line_matcher ''stage3'' first_clock True hosts_world))))
     = etc_live (snd (process_all one_line_matcher ''stage3'' first_clock True hosts_world))
   \<and> etc_backup (snd (process_all one_line_matcher ''stage3'' second_clock True
                 (snd (process_all one_line_matcher ''stage3'' first_clock True hosts_world))))
       (''20260101_120500'', ''hosts'') = Some ''127.0.0.1 box\<newline>''"
proof -
  have h: "\<forall>f\<in>set (map fst (etc_new hosts_world)).
             etc_live hosts_world ''stage3'' f = None
             \<or> etc_live hosts_world ''stage3'' f = map_of (etc_new hosts_world) f
             \<or> rule_of f = ''keep-local''"
    by (simp add: hosts_world_def empty_world_def rule_of_def endswith_def)
  obtain w1 w2 where
    r1: "process_all one_line_matcher ''stage3'' first_clock True hosts_world = (None, w1)"
    and r2: "process_all one_line_matcher ''stage3'' second_clock True w1 = (None, w2)"
    and l: "etc_live w2 = etc_live w1"
    and b: "\<forall>t f. etc_backup w2 (t, f) =
               (if f \<in> set (map fst (etc_new hosts_world)) \<and> t = second_clock f
                   \<and> etc_live hosts_world ''stage3'' f \<noteq> None
                   \<and> etc_live hosts_world ''stage3'' f \<noteq> map_of (etc_new hosts_world) f
                then etc_live hosts_world ''stage3'' f else etc_backup w1 (t, f))"
    using C8_second_pass [OF h, of one_line_matcher first_clock True second_clock] by blast
  have "etc_backup w2 (''20260101_120500'', ''hosts'') = Some ''127.0.0.1 box\<newline>''"
    using b by (simp add: hosts_world_def empty_world_def second_clock_def)
  then show ?thesis using r1 r2 l by simp
qed

text \<open>
  C8, as stated, fails: \<open>hosts\<close> differs and is kept local, so the second pass, five
  minutes later, creates one more backup.
\<close>

theorem C8_second_pass_backs_up_again:
  "etc_backup (snd (process_all one_line_matcher ''stage3'' second_clock True
                 (snd (process_all one_line_matcher ''stage3'' first_clock True hosts_world))))
   \<noteq> etc_backup (snd (process_all one_line_matcher ''stage3'' first_clock True hosts_world))"
proof -
  let ?w1 = "snd (process_all one_line_matcher ''stage3'' first_clock True hosts_world)"
  let ?w2 = "snd (process_all one_line_matcher ''stage3'' second_clock True ?w1)"
  have 1: "etc_backup ?w1 (''20260101_120500'', ''hosts'') = None"
    by code_simp
  have 2: "etc_backup ?w2 (''20260101_120500'', ''hosts'') = Some ''127.0.0.1 box\<newline>''"
    by code_simp
  show ?thesis using 1 2 by (metis option.distinct(1))
qed

section \<open>Properties of the version tracker\<close>














text \<open>
  C4. Scenario E: \<open>check_updates\<close> yields the one descriptor, and \<open>update_auto\<close> records
  version 2.0 and logs success. \<open>update_auto\<close> calls no build and reads no build result
  (the call is a comment in the script), so the version advances whether or not a rebuild
  would succeed.
\<close>

theorem C4_version_advances_without_rebuild:
  "fst (check_updates scenario_E) = [(''pkg'', (Some ''1.0'', Some ''2.0'', ''auto'', Some ''core''))]
   \<and> fst (update_auto (snd (check_updates scenario_E))) = None
   \<and> map_option version
        (map_of (installed_packages (snd (update_auto (snd (check_updates scenario_E))))) ''pkg'')
       = Some (Some ''2.0'')
   \<and> last (pm_log (snd (update_auto (snd (check_updates scenario_E)))))
       = ''pkg updated successfully''"
  by code_simp

section \<open>Properties of the installer\<close>

lemma banco_print [simp]: "banco (print line g) = banco g"
  by (simp add: print_def)

lemma banco_executar_hooks [simp]: "banco (executar_hooks cmds g) = banco g"
  by (induction cmds arbitrary: g) simp_all

lemma banco_rodar_testes [simp]: "banco (rodar_testes t g) = banco g"
  by (simp add: rodar_testes_def Let_def)

lemma stdout_print [simp]: "stdout (print line g) = stdout g @ [line]"
  by (simp add: print_def)

lemma stdout_executar_hooks [simp]:
  "stdout (executar_hooks cmds g) = stdout g @ map (\<lambda>cmd. ''[HOOK] Executando: '' @ cmd) cmds"
  by (induction cmds arbitrary: g) simp_all

text \<open>
  C3. A recipe with a required test, installed from source with tests requested:
  \<open>instalar_pacote\<close> prints that a failure blocks the installation, runs no test, and
  registers the package in the database, whatever the test command would return
  (\<open>false\<close> always exits non-zero).
\<close>

theorem C3_required_test_does_not_block:
  "map_of (banco (instalar_pacote now
                    (receita\<lparr>testes := Some \<lparr>command = ''false'', required = True\<rparr>\<rparr>)
                    False True jobs g))
          (Receita.nome receita)
     = Some \<lparr>PacoteInstalado.nome = Receita.nome receita, versao = Receita.versao receita,
             flags_use = Receita.flags_use receita, instalada_em = now\<rparr>
   \<and> (''[TESTES] Falha bloqueia instala'' @ [CHR 0xC3, CHR 0xA7, CHR 0xC3, CHR 0xA3] @ ''o'')
       \<in> set (stdout (instalar_pacote now
                    (receita\<lparr>testes := Some \<lparr>command = ''false'', required = True\<rparr>\<rparr>)
                    False True jobs g))"
  by (simp add: instalar_pacote_def registrar_pacote_def rodar_testes_def Let_def update_conv')

section \<open>Properties of the build pipeline\<close>

text \<open>
  C6. Two build attempts for the example recipe that start without a sandbox. In the first
  the download has the wrong digest: \<open>build_package\<close> returns at the checksum test, before
  \<open>clean_sandbox\<close>, and the sandbox is still there. In the second \<open>./configure\<close> fails:
  the exception leaves \<open>build_package\<close>, and the sandbox is still there. Only the path on
  which every step succeeds reaches \<open>clean_sandbox\<close>.
\<close>

theorem C6_sandbox_left_behind:
  "fst (build_package corrupt_env ''stage3'' ''gcc'' GCC_RECIPE empty_world) = None
   \<and> sandbox_exists (snd (build_package corrupt_env ''stage3'' ''gcc'' GCC_RECIPE empty_world))
   \<and> fst (build_package broken_tools_env ''stage3'' ''gcc'' GCC_RECIPE empty_world)
       = Some CalledProcessError
   \<and> sandbox_exists (snd (build_package broken_tools_env ''stage3'' ''gcc'' GCC_RECIPE empty_world))
   \<and> \<not> sandbox_exists empty_world"
  by code_simp

lemma download_dests_append [simp]:
  "download_dests (xs @ ys) = download_dests xs @ download_dests ys"
  by (induction xs rule: download_dests.induct) simp_all

lemma trace_process_file [simp]: "trace (snd (process_file sm s ts f auto w)) = trace w"
  by (simp add: process_file_def backup_file_def and_then_def split: option.splits)

lemma trace_process_each [simp]: "trace (snd (process_each sm s clk auto fs w)) = trace w"
proof (induction fs arbitrary: w)
  case Nil
  show ?case by simp
next
  case (Cons f fs)
  obtain r w1 where p: "process_file sm s (clk f) f auto w = (r, w1)"
    by (cases "process_file sm s (clk f) f auto w")
  have t: "trace w1 = trace w"
    using trace_process_file [of sm s "clk f" f auto w] p by simp
  show ?case
    using Cons.IH [of w1] p t by (cases r) (simp_all add: and_then_def)
qed

lemma trace_update_etc [simp]: "trace (snd (update_etc sm clk s w)) = trace w"
  by (simp add: update_etc_def process_all_def)

lemma and_then_dests:
  assumes "\<And>w. download_dests (trace (snd (f w))) = download_dests (trace w)"
  shows "download_dests (trace (snd (and_then r f))) = download_dests (trace (snd r))"
proof (cases r)
  case (Pair e w)
  then show ?thesis using assms by (cases e) (simp_all add: and_then_def)
qed

lemma dests_call:
  "download_dests (trace (snd (call e a err w))) = download_dests (trace w) @ download_dests [a]"
  by (simp add: call_def)

lemma dests_run [simp]:
  "download_dests (trace (snd (run e argv cwd w))) = download_dests (trace w)"
  by (simp add: run_def dests_call)

lemma dests_extract [simp]:
  "download_dests (trace (snd (extract_tarball e t d w))) = download_dests (trace w)"
  by (simp add: extract_tarball_def dests_call)

lemma dests_apply_patch [simp]:
  "download_dests (trace (snd (apply_patch e p d w))) = download_dests (trace w)"
  by (simp add: apply_patch_def dests_call)

lemma dests_apply_patches [simp]:
  "download_dests (trace (snd (apply_patches e ps d w))) = download_dests (trace w)"
  by (induction ps arbitrary: w) (simp_all add: and_then_dests)

lemma dests_run_build [simp]:
  "download_dests (trace (snd (run_build e s d r w))) = download_dests (trace w)"
  by (simp add: run_build_def Let_def and_then_dests)

lemma dests_download [simp]:
  "download_dests (trace (snd (download e u d w))) = download_dests (trace w) @ [d]"
  by (simp add: download_def dests_call)

lemma dests_finish [simp]:
  "download_dests (trace (snd (and_then (update_etc sm clk s (run_hooks s h p w))
                                  (\<lambda>w. (None, clean_sandbox w)))))
     = download_dests (trace w)"
proof -
  have "download_dests (trace (snd (and_then (update_etc sm clk s (run_hooks s h p w))
                                  (\<lambda>w. (None, clean_sandbox w)))))
          = download_dests (trace (snd (update_etc sm clk s (run_hooks s h p w))))"
    by (rule and_then_dests) (simp add: clean_sandbox_def)
  then show ?thesis by (simp add: run_hooks_def)
qed

lemma dests_after_verify:
  "download_dests (trace (snd
      (and_then (extract_tarball e t d w) (\<lambda>w.
       and_then (apply_patches e ps d w) (\<lambda>w.
       and_then (run_build e s d r w) (\<lambda>w.
       and_then (update_etc (sequence_matcher e) (clock e (trace w)) s
                   (run_hooks s h p w)) (\<lambda>w.
       (None, clean_sandbox w))))))))
   = download_dests (trace w)"
  by (simp add: and_then_dests)

lemma dests_build_package:
  "download_dests (trace (snd (build_package e s p r w)))
     = download_dests (trace w) @ (case recipe_tarball r of None \<Rightarrow> [] | Some u \<Rightarrow> [tarball_path p])"
proof (cases "recipe_tarball r")
  case None
  then show ?thesis by (simp add: build_package_def prepare_sandbox_def)
next
  case (Some u)
  have rest: "\<And>w. download_dests (trace (snd
        (case recipe_sha256 r of
            None \<Rightarrow> (Some KeyError, w)
          | Some sha256sum \<Rightarrow>
              (case verify_sha256 e (tarball_path p) sha256sum w of
                 (valid, w) \<Rightarrow>
                   if \<not> valid then (None, log (''SHA256 mismatch for '' @ p) w)
                   else
                     and_then (extract_tarball e (tarball_path p) (path_join SANDBOX_DIR p) w) (\<lambda>w.
                     and_then (apply_patches e (recipe_patches r) (path_join SANDBOX_DIR p) w) (\<lambda>w.
                     and_then (run_build e s (path_join SANDBOX_DIR p) r w) (\<lambda>w.
                     and_then (update_etc (sequence_matcher e) (clock e (trace w)) s
                                 (run_hooks s ''post_install'' p w)) (\<lambda>w.
                     (None, clean_sandbox w))))))))) = download_dests (trace w)"
    by (simp add: verify_sha256_def Let_def dests_after_verify split: option.splits)
  show ?thesis
    using Some
    by (simp add: build_package_def Let_def and_then_dests [OF rest] prepare_sandbox_def)
qed

lemma and_then_returns:
  "and_then r f = (None, w') \<Longrightarrow> \<exists>w1. r = (None, w1) \<and> f w1 = (None, w')"
  by (cases r, cases "fst r") (auto simp: and_then_def)

lemma build_package_returns:
  "build_package e s p r w = (None, w') \<Longrightarrow> recipe_tarball r \<noteq> None"
  by (cases "recipe_tarball r") (simp_all add: build_package_def Let_def)

lemma dests_build_package_returns:
  assumes "build_package e s p r w = (None, w')"
  shows "download_dests (trace w') = download_dests (trace w) @ [tarball_path p]"
proof -
  obtain u where "recipe_tarball r = Some u"
    using build_package_returns [OF assms] by auto
  then show ?thesis
    using dests_build_package [of e s p r w] assms by simp
qed

lemma dests_build_deps:
  "build_deps e s rs deps w = (None, w') \<Longrightarrow>
     download_dests (trace w')
       = download_dests (trace w)
         @ map tarball_path (filter (\<lambda>dep. map_of rs dep \<noteq> None) deps)"
proof (induction deps arbitrary: w)
  case Nil
  then show ?case by simp
next
  case (Cons dep deps)
  show ?case
  proof (cases "map_of rs dep")
    case None
    then show ?thesis using Cons by simp
  next
    case (Some r)
    then obtain w1 where b: "build_package e s dep r w = (None, w1)"
      and d: "build_deps e s rs deps w1 = (None, w')"
      using Cons.prems and_then_returns by fastforce
    show ?thesis
      using Cons.IH [OF d] dests_build_package_returns [OF b] Some by simp
  qed
qed

lemma dests_build_items:
  "build_items e s rs items w = (None, w') \<Longrightarrow>
     download_dests (trace w')
       = download_dests (trace w)
         @ map tarball_path
             (concat (map (\<lambda>(package, recipe).
                filter (\<lambda>dep. map_of rs dep \<noteq> None) (recipe_dependencias_build recipe)
                @ [package]) items))"
proof (induction items arbitrary: w)
  case Nil
  then show ?case by simp
next
  case (Cons item items)
  obtain p r where item: "item = (p, r)" by (cases item)
  obtain w1 where d: "build_deps e s rs (recipe_dependencias_build r) w = (None, w1)"
    and rest: "and_then (build_package e s p r w1) (build_items e s rs items) = (None, w')"
    using Cons.prems item and_then_returns [of "build_deps e s rs (recipe_dependencias_build r) w"]
    by auto
  obtain w2 where b: "build_package e s p r w1 = (None, w2)"
    and i: "build_items e s rs items w2 = (None, w')"
    using rest and_then_returns by blast
  show ?case
    using Cons.IH [OF i] dests_build_package_returns [OF b] dests_build_deps [OF d] item
    by simp
qed

text \<open>
  C2, as the code has it. When \<open>build_stage\<close> returns, the builds it started are, in
  order: for each item of \<open>recipes\<close> in turn, one build of each declared build-time
  dependency that is a key of \<open>recipes\<close>, and then the build of the package itself. So a
  build of every in-stage dependency has been run, and has returned, right before the
  package's own entry is built. Nothing is remembered between builds: a package is built
  once for its own entry and once more for every listing as a dependency, and a build that
  stopped at a checksum mismatch counts as returned.
\<close>

theorem C2_stage_build_order:
  assumes "build_stage environ stage recipes w = (None, w')"
  shows "download_dests (trace w')
           = download_dests (trace w) @ map tarball_path (stage_order recipes)"
  using dests_build_items [of environ stage recipes recipes w w'] assms
  by (simp add: build_stage_def stage_order_def)

lemma app_lib_run:
  "fst (build_stage good_env ''stage3'' app_lib_recipes empty_world) = None
   \<and> download_dests (trace (snd (build_stage good_env ''stage3'' app_lib_recipes empty_world)))
       = [''/tmp/pm-sandbox/lib/lib.tar.xz'', ''/tmp/pm-sandbox/app/app.tar.xz'',
          ''/tmp/pm-sandbox/lib/lib.tar.xz'']"
  by code_simp

theorem C2_stage_build_order_witness:
  "download_dests (trace (snd (build_stage good_env ''stage3'' app_lib_recipes empty_world)))
     = map tarball_path [''lib'', ''app'', ''lib'']"
proof -
  have r: "build_stage good_env ''stage3'' app_lib_recipes empty_world
             = (None, snd (build_stage good_env ''stage3'' app_lib_recipes empty_world))"
    using app_lib_run by (simp add: prod_eq_iff)
  have o: "stage_order app_lib_recipes = [''lib'', ''app'', ''lib'']"
    by (simp add: stage_order_def app_lib_recipes_def)
  have t: "trace empty_world = []"
    by (simp add: empty_world_def)
  show ?thesis
    using C2_stage_build_order [OF r] o t by simp
qed

text \<open>
  C2, as stated, fails: in a stage where \<open>app\<close> needs \<open>lib\<close> and every build succeeds,
  \<open>lib\<close> is built before \<open>app\<close> and once more for its own entry.
\<close>

theorem C2_dependency_built_twice:
  "fst (build_stage good_env ''stage3'' app_lib_recipes empty_world) = None
   \<and> download_dests (trace (snd (build_stage good_env ''stage3'' app_lib_recipes empty_world)))
       = [''/tmp/pm-sandbox/lib/lib.tar.xz'', ''/tmp/pm-sandbox/app/app.tar.xz'',
          ''/tmp/pm-sandbox/lib/lib.tar.xz'']"
  using app_lib_run by simp

text \<open>
  C5. When the download succeeds and the digest of the downloaded file differs from the
  checksum the recipe declares, \<open>build_package\<close> returns right after the verification:
  the download is the only external tool it has called (no extraction, no patch, no
  configure, make or install), its last log line reports the mismatch, and the package
  database and the configuration trees are as before.
\<close>

theorem C5_checksum_mismatch_aborts:
  assumes "recipe_tarball recipe = Some source"
    and "recipe_sha256 recipe = Some sha256sum"
    and "succeeds environ (trace w) (Curl source (tarball_path package))"
    and "hexdigest environ (trace w @ [Curl source (tarball_path package)]) (tarball_path package)
           \<noteq> sha256sum"
  shows "\<exists>w'. build_package environ stage package recipe w = (None, w')
           \<and> trace w' = trace w @ [Curl source (tarball_path package)]
           \<and> log_file w' = log_file w @
                [''Sandbox prepared'',
                 ''Downloading '' @ source @ '' -> '' @ tarball_path package,
                 ''SHA256 invalid for '' @ tarball_path package,
                 ''SHA256 mismatch for '' @ package]
           \<and> package_db w' = package_db w
           \<and> etc_live w' = etc_live w
           \<and> etc_backup w' = etc_backup w"
  using assms
  by (simp add: build_package_def Let_def prepare_sandbox_def download_def call_def
      and_then_def verify_sha256_def)

theorem C5_checksum_mismatch_aborts_witness:
  "fst (build_package corrupt_env ''stage3'' ''gcc'' GCC_RECIPE empty_world) = None
   \<and> trace (snd (build_package corrupt_env ''stage3'' ''gcc'' GCC_RECIPE empty_world))
       = [Curl ''https://ftp.gnu.org/gnu/gcc/gcc-12.2.0/gcc-12.2.0.tar.xz'' (tarball_path ''gcc'')]
   \<and> package_db (snd (build_package corrupt_env ''stage3'' ''gcc'' GCC_RECIPE empty_world)) = None"
proof -
  have 1: "recipe_tarball GCC_RECIPE
             = Some ''https://ftp.gnu.org/gnu/gcc/gcc-12.2.0/gcc-12.2.0.tar.xz''"
    by (simp add: GCC_RECIPE_def)
  have 2: "recipe_sha256 GCC_RECIPE
             = Some ''d08a6c1a8c23ee8b3e1c1b8d7d5ebf5f9f7715c7b6f4b5646f6b3f6f6b5f6c5f''"
    by (simp add: GCC_RECIPE_def)
  have 3: "succeeds corrupt_env (trace empty_world)
             (Curl ''https://ftp.gnu.org/gnu/gcc/gcc-12.2.0/gcc-12.2.0.tar.xz'' (tarball_path ''gcc''))"
    by (simp add: corrupt_env_def)
  have 4: "hexdigest corrupt_env
             (trace empty_world
                @ [Curl ''https://ftp.gnu.org/gnu/gcc/gcc-12.2.0/gcc-12.2.0.tar.xz'' (tarball_path ''gcc'')])
             (tarball_path ''gcc'')
           \<noteq> ''d08a6c1a8c23ee8b3e1c1b8d7d5ebf5f9f7715c7b6f4b5646f6b3f6f6b5f6c5f''"
    by (simp add: corrupt_env_def)
  obtain w' where "build_package corrupt_env ''stage3'' ''gcc'' GCC_RECIPE empty_world = (None, w')"
    and "trace w' = trace empty_world
           @ [Curl ''https://ftp.gnu.org/gnu/gcc/gcc-12.2.0/gcc-12.2.0.tar.xz'' (tarball_path ''gcc'')]"
    and "package_db w' = package_db empty_world"
    using C5_checksum_mismatch_aborts [OF 1 2 3 4, of "''stage3''"] by blast
  then show ?thesis by (simp add: empty_world_def)
qed


end
